theory Spec2Isabelle
  imports Complex_Main
begin

section \<open>Numbers\<close>

text \<open>
  The entries of arrays and tensors are Python/NumPy floating-point numbers. They are
  modelled as real numbers extended by the three special values the code can meet:
  \<open>+inf\<close>, \<open>-inf\<close> and \<open>nan\<close>. Arithmetic on finite values is exact:
  rounding, overflow of finite values and the sign of zero are not represented.
  An integer array holds \<open>Fin\<close> values that are integers.
\<close>

datatype num = Fin real | PInf | NInf | NaN

instantiation num :: "{comm_monoid_add, comm_monoid_mult}"
begin

definition zero_num :: num where
  "zero_num = Fin 0"

definition one_num :: num where
  "one_num = Fin 1"

fun plus_num :: "num \<Rightarrow> num \<Rightarrow> num" where
  "plus_num NaN y = NaN"
| "plus_num x NaN = NaN"
| "plus_num PInf NInf = NaN"
| "plus_num NInf PInf = NaN"
| "plus_num PInf y = PInf"
| "plus_num x PInf = PInf"
| "plus_num NInf y = NInf"
| "plus_num x NInf = NInf"
| "plus_num (Fin a) (Fin b) = Fin (a + b)"

fun times_num :: "num \<Rightarrow> num \<Rightarrow> num" where
  "times_num NaN y = NaN"
| "times_num x NaN = NaN"
| "times_num (Fin a) (Fin b) = Fin (a * b)"
| "times_num (Fin a) PInf = (if a = 0 then NaN else if 0 < a then PInf else NInf)"
| "times_num (Fin a) NInf = (if a = 0 then NaN else if 0 < a then NInf else PInf)"
| "times_num PInf (Fin b) = (if b = 0 then NaN else if 0 < b then PInf else NInf)"
| "times_num NInf (Fin b) = (if b = 0 then NaN else if 0 < b then NInf else PInf)"
| "times_num PInf PInf = PInf"
| "times_num PInf NInf = NInf"
| "times_num NInf PInf = NInf"
| "times_num NInf NInf = PInf"

lemma num_add_assoc: "x + y + z = x + (y + z)" for x y z :: num
  by (cases x; cases y; cases z) simp_all

lemma num_add_commute: "x + y = y + x" for x y :: num
  by (cases x; cases y) simp_all

lemma num_add_zero: "0 + x = x" for x :: num
  by (cases x) (simp_all add: zero_num_def)

lemma num_mult_assoc: "x * y * z = x * (y * z)" for x y z :: num
  by (cases x; cases y; cases z)
     (auto simp: zero_less_mult_iff mult_less_0_iff not_less order_le_less)

lemma num_mult_commute: "x * y = y * x" for x y :: num
  by (cases x; cases y) (simp_all add: mult.commute)

lemma num_mult_one: "1 * x = x" for x :: num
  by (cases x) (simp_all add: one_num_def)

instance
  by standard
     (rule num_add_assoc num_add_commute num_add_zero num_mult_assoc num_mult_commute num_mult_one)+

end

text \<open>\<open>np.isinf\<close>: true of both infinities, false of \<open>nan\<close>.\<close>

fun isinf :: "num \<Rightarrow> bool" where
  "isinf PInf = True"
| "isinf NInf = True"
| "isinf x = False"


section \<open>Errors\<close>

text \<open>
  Neither library call of the module is wrapped in \<open>try\<close>: an exception raised by
  NumPy, SciPy or TensorFlow ends the call. Results are therefore sums, \<open>Inl\<close> the
  exception. \<open>NotModelled\<close> marks a library call on operands outside the fragment of
  the library that is embedded here (the places are named where they occur). Nothing
  is concluded about the program from this outcome: a theorem that says what a call
  returns has hypotheses under which the outcome is not \<open>NotModelled\<close>, and where a
  theorem equates two calls on all operands, both sides have this outcome together.
\<close>

datatype error = ValueError | AxisError | IndexError | InvalidArgumentError | NotModelled

definition ebind :: "error + 'a \<Rightarrow> ('a \<Rightarrow> error + 'b) \<Rightarrow> error + 'b" where
  "ebind m f = (case m of Inl e \<Rightarrow> Inl e | Inr x \<Rightarrow> f x)"

section \<open>Arrays\<close>

text \<open>
  An array is its shape and its entries in row-major (C) order, as NumPy and TensorFlow
  store them.
\<close>

datatype arr = Arr (shape: "nat list") (data: "num list")


text \<open>
  The identity matrix of size \<open>n\<close> (\<open>np.eye\<close>, \<open>sp.eye\<close>).
\<close>

definition eye_arr :: "nat \<Rightarrow> arr" where
  "eye_arr n = Arr [n, n] (concat (map (\<lambda>i. map (\<lambda>j. if i = j then 1 else 0) [0..<n]) [0..<n]))"

section \<open>Tensors and the multiplication mode\<close>

text \<open>
  A TensorFlow operand is a dense \<open>Tensor\<close> or a \<open>SparseTensor\<close>. A sparse operand
  is represented by the array it denotes (entries that are not stored are zeros).
  Tensors are immutable values. Shapes are concrete (eager execution).
\<close>

datatype tensor = Tensor arr | SparseTensor arr

fun content :: "tensor \<Rightarrow> arr" where
  "content (Tensor c) = c"
| "content (SparseTensor c) = c"

fun is_sparse :: "tensor \<Rightarrow> bool" where
  "is_sparse (Tensor c) = False"
| "is_sparse (SparseTensor c) = True"

definition ndim :: "tensor \<Rightarrow> nat" where
  "ndim x = length (shape (content x))"

definition SINGLE :: int where "SINGLE = 1"
definition MIXED :: int where "MIXED = 2"
definition iMIXED :: int where "iMIXED = 3"
definition BATCH :: int where "BATCH = 4"
definition UNKNOWN :: int where "UNKNOWN = - 1"

definition autodetect_mode :: "tensor \<Rightarrow> tensor \<Rightarrow> int" where
  "autodetect_mode a b =
     (let a_dim = ndim a; b_dim = ndim b in
      if b_dim = 2 then
        (if a_dim = 2 then SINGLE else if a_dim = 3 then iMIXED else UNKNOWN)
      else if b_dim = 3 then
        (if a_dim = 2 then MIXED else if a_dim = 3 then BATCH else UNKNOWN)
      else UNKNOWN)"

section \<open>Index arithmetic\<close>

text \<open>
  Row-major addressing: the stride of an axis is the product of the extents after it,
  a flat position unravels into one index per axis, and an entry's position is the sum
  of its indices times the strides.
\<close>

fun strides :: "nat list \<Rightarrow> nat list" where
  "strides [] = []"
| "strides (s # ss) = prod_list ss # strides ss"

fun unravel :: "nat list \<Rightarrow> nat \<Rightarrow> nat list" where
  "unravel [] k = []"
| "unravel (s # ss) k = (k div prod_list ss) # unravel ss (k mod prod_list ss)"

definition offset :: "nat list \<Rightarrow> nat list \<Rightarrow> nat" where
  "offset idx st = sum_list (map2 (*) idx st)"

section \<open>The engine's transpose, reshape and matrix product\<close>

text \<open>
  \<open>tf.transpose\<close> and \<open>tf.sparse.transpose\<close>: axis \<open>d\<close> of the result is axis
  \<open>perm[d]\<close> of the operand. A \<open>perm\<close> that is not a permutation of the axes is
  rejected by the engine.
\<close>

definition transpose_arr :: "arr \<Rightarrow> nat list \<Rightarrow> error + arr" where
  "transpose_arr t perm =
     (if sort perm \<noteq> [0..<length (shape t)] then Inl InvalidArgumentError
      else
        let osh = map (\<lambda>p. shape t ! p) perm;
            st = map (\<lambda>p. strides (shape t) ! p) perm
        in Inr (Arr osh (map (\<lambda>k. data t ! offset (unravel osh k) st) [0..<prod_list osh])))"

text \<open>
  \<open>tf.reshape\<close> and \<open>tf.sparse.reshape\<close>: the entries keep their row-major order; one
  extent may be \<open>-1\<close> and is then inferred from the number of entries. Inferring an
  extent beside an extent \<open>0\<close> differs between versions of the engine and is not
  modelled.
\<close>

definition reshape_arr :: "arr \<Rightarrow> int list \<Rightarrow> error + arr" where
  "reshape_arr t tgt =
     (let total = prod_list (shape t);
          known = prod_list (map nat (filter (\<lambda>d. d \<noteq> - 1) tgt))
      in if (\<exists>d \<in> set tgt. d < - 1) \<or> 1 < count_list tgt (- 1) then Inl InvalidArgumentError
         else if count_list tgt (- 1) = 0 then
           (if known = total then Inr (Arr (map nat tgt) (data t)) else Inl InvalidArgumentError)
         else if known = 0 then Inl NotModelled
         else if total mod known \<noteq> 0 then Inl InvalidArgumentError
         else Inr (Arr (map (\<lambda>d. if d = - 1 then total div known else nat d) tgt) (data t)))"

text \<open>
  The product of an \<open>n \<times> m\<close> and an \<open>m \<times> p\<close> matrix, each given by its entry
  function, as the row-major list of the \<open>n \<times> p\<close> entries.
\<close>

definition mat_mul :: "nat \<Rightarrow> nat \<Rightarrow> nat \<Rightarrow> (nat \<Rightarrow> nat \<Rightarrow> num) \<Rightarrow> (nat \<Rightarrow> nat \<Rightarrow> num) \<Rightarrow> num list" where
  "mat_mul n m p A B =
     concat (map (\<lambda>i. map (\<lambda>k. sum_list (map (\<lambda>j. A i j * B j k) [0..<m])) [0..<p]) [0..<n])"

text \<open>
  Entry \<open>(i, j)\<close> of the matrix stored at position \<open>off\<close> of \<open>xs\<close> with \<open>cols\<close>
  columns, read as its transpose when the flag is set.
\<close>

definition entry2 :: "num list \<Rightarrow> nat \<Rightarrow> nat \<Rightarrow> bool \<Rightarrow> nat \<Rightarrow> nat \<Rightarrow> num" where
  "entry2 xs off cols t i j = (if t then xs ! (off + j * cols + i) else xs ! (off + i * cols + j))"

text \<open>
  The values of \<open>tfsp.matmul\<close>: the product along the two innermost axes, honouring
  the transpose flags, for two matrices or two batches of the same size. Inner extents
  that do not agree are an engine error. Operands of other ranks, and batch
  broadcasting, are outside the modelled fragment.
\<close>

fun matmul_arr :: "arr \<Rightarrow> arr \<Rightarrow> bool \<Rightarrow> bool \<Rightarrow> error + arr" where
  "matmul_arr (Arr [n, m] xs) (Arr [p, q] ys) ta tb =
     (let rows = (if ta then m else n); inner = (if ta then n else m);
          inner' = (if tb then q else p); cols = (if tb then p else q)
      in if inner \<noteq> inner' then Inl InvalidArgumentError
         else Inr (Arr [rows, cols]
                (mat_mul rows inner cols (entry2 xs 0 m ta) (entry2 ys 0 q tb))))"
| "matmul_arr (Arr [c, n, m] xs) (Arr [c', p, q] ys) ta tb =
     (let rows = (if ta then m else n); inner = (if ta then n else m);
          inner' = (if tb then q else p); cols = (if tb then p else q)
      in if c \<noteq> c' then Inl (if c = 1 \<or> c' = 1 then NotModelled else InvalidArgumentError)
         else if inner \<noteq> inner' then Inl InvalidArgumentError
         else Inr (Arr [c, rows, cols]
                (concat (map (\<lambda>t. mat_mul rows inner cols
                                      (entry2 xs (t * (n * m)) m ta)
                                      (entry2 ys (t * (p * q)) q tb)) [0..<c]))))"
| "matmul_arr a b ta tb = Inl NotModelled"

text \<open>
  An operand of \<open>tfsp.matmul\<close> is a dense tensor or a \<open>CSRSparseMatrix\<close>. As the
  engine documents it, the product is a \<open>CSRSparseMatrix\<close> when both operands are, and a
  dense tensor when one of them is not.
\<close>

datatype matmul_operand = DenseOp arr | CSRSparseMatrix arr

fun tfsp_matmul :: "matmul_operand \<Rightarrow> matmul_operand \<Rightarrow> bool \<Rightarrow> bool \<Rightarrow> error + matmul_operand" where
  "tfsp_matmul (CSRSparseMatrix x) (CSRSparseMatrix y) ta tb =
     ebind (matmul_arr x y ta tb) (\<lambda>c. Inr (CSRSparseMatrix c))"
| "tfsp_matmul (CSRSparseMatrix x) (DenseOp y) ta tb =
     ebind (matmul_arr x y ta tb) (\<lambda>c. Inr (DenseOp c))"
| "tfsp_matmul (DenseOp x) (CSRSparseMatrix y) ta tb =
     ebind (matmul_arr x y ta tb) (\<lambda>c. Inr (DenseOp c))"
| "tfsp_matmul (DenseOp x) (DenseOp y) ta tb =
     ebind (matmul_arr x y ta tb) (\<lambda>c. Inr (DenseOp c))"

section \<open>The module's tensor operations\<close>

text \<open>
  \<open>transpose(a, perm=None, name=None)\<close> and \<open>reshape(a, shape=None, name=None)\<close>
  choose the sparse or the dense engine operation by \<open>K.is_sparse(a)\<close>. The
  \<open>name\<close> only labels the operation and is left out. \<open>tf.reshape\<close> refuses the
  shape \<open>None\<close>.
\<close>

definition tf_transpose :: "tensor \<Rightarrow> nat list \<Rightarrow> error + tensor" where
  "tf_transpose a perm = ebind (transpose_arr (content a) perm) (\<lambda>c. Inr (Tensor c))"

definition tf_sparse_transpose :: "tensor \<Rightarrow> nat list \<Rightarrow> error + tensor" where
  "tf_sparse_transpose a perm = ebind (transpose_arr (content a) perm) (\<lambda>c. Inr (SparseTensor c))"

definition transpose_t :: "tensor \<Rightarrow> nat list option \<Rightarrow> error + tensor" where
  "transpose_t a perm =
     (let transpose_op = (if is_sparse a then tf_sparse_transpose else tf_transpose);
          perm' = (case perm of None \<Rightarrow> [1, 0] | Some p \<Rightarrow> p)
      in transpose_op a perm')"

definition tf_reshape :: "tensor \<Rightarrow> int list option \<Rightarrow> error + tensor" where
  "tf_reshape a shp =
     (case shp of None \<Rightarrow> Inl ValueError
      | Some s \<Rightarrow> ebind (reshape_arr (content a) s) (\<lambda>c. Inr (Tensor c)))"

definition tf_sparse_reshape :: "tensor \<Rightarrow> int list option \<Rightarrow> error + tensor" where
  "tf_sparse_reshape a shp =
     (case shp of None \<Rightarrow> Inl ValueError
      | Some s \<Rightarrow> ebind (reshape_arr (content a) s) (\<lambda>c. Inr (SparseTensor c)))"

definition reshape :: "tensor \<Rightarrow> int list option \<Rightarrow> error + tensor" where
  "reshape a shp =
     (let reshape_op = (if is_sparse a then tf_sparse_reshape else tf_reshape)
      in reshape_op a shp)"

text \<open>
  \<open>dot(a, b, transpose_a=False, transpose_b=False)\<close>: a \<open>SparseTensor\<close> operand is
  wrapped as a \<open>CSRSparseMatrix\<close>; a product that has \<open>to_sparse_tensor\<close> (a
  \<open>CSRSparseMatrix\<close>) is converted to a \<open>SparseTensor\<close>.
\<close>

definition dot :: "tensor \<Rightarrow> tensor \<Rightarrow> bool \<Rightarrow> bool \<Rightarrow> error + tensor" where
  "dot a b transpose_a transpose_b =
     (let a_is_sparse_tensor = is_sparse a;
          b_is_sparse_tensor = is_sparse b;
          a' = (if a_is_sparse_tensor then CSRSparseMatrix (content a) else DenseOp (content a));
          b' = (if b_is_sparse_tensor then CSRSparseMatrix (content b) else DenseOp (content b))
      in ebind (tfsp_matmul a' b' transpose_a transpose_b)
           (\<lambda>out. case out of
                     CSRSparseMatrix c \<Rightarrow> Inr (SparseTensor c)
                   | DenseOp c \<Rightarrow> Inr (Tensor c)))"

text \<open>
  \<open>mixed_mode_dot(a, b)\<close>. Unpacking \<open>K.int_shape(b)\<close> into three names raises
  \<open>ValueError\<close> unless \<open>b\<close> has rank 3.
\<close>

definition mixed_mode_dot :: "tensor \<Rightarrow> tensor \<Rightarrow> error + tensor" where
  "mixed_mode_dot a b =
     (case shape (content b) of
        [s_0, s_1, s_2] \<Rightarrow>
          ebind (transpose_t b (Some [1, 2, 0])) (\<lambda>B_T.
          ebind (reshape B_T (Some [int s_1, - 1])) (\<lambda>B_T.
          ebind (dot a B_T False False) (\<lambda>output.
          ebind (reshape output (Some [int s_1, int s_2, - 1])) (\<lambda>output.
          transpose_t output (Some [2, 0, 1])))))
      | _ \<Rightarrow> Inl ValueError)"

definition filter_dot :: "tensor \<Rightarrow> tensor \<Rightarrow> error + tensor" where
  "filter_dot fltr features =
     (let mode = autodetect_mode fltr features
      in if mode = SINGLE \<or> mode = BATCH then dot fltr features False False
         else mixed_mode_dot fltr features)"

section \<open>NumPy arrays and SciPy sparse matrices\<close>

text \<open>
  An adjacency matrix is a NumPy \<open>ndarray\<close> or a SciPy sparse matrix, with entries of
  type \<open>int64\<close> or \<open>float64\<close> (other element types are not modelled; integers are
  unbounded). A sparse matrix has rank 2 and is represented by the array it denotes.
\<close>

datatype dtype = Int64 | Float64

datatype obj = NDArray dtype arr | SpMatrix dtype arr

fun dtype_of :: "obj \<Rightarrow> dtype" where
  "dtype_of (NDArray dt c) = dt"
| "dtype_of (SpMatrix dt c) = dt"

fun arr_of :: "obj \<Rightarrow> arr" where
  "arr_of (NDArray dt c) = c"
| "arr_of (SpMatrix dt c) = c"

fun issparse :: "obj \<Rightarrow> bool" where
  "issparse (NDArray dt c) = False"
| "issparse (SpMatrix dt c) = True"

text \<open>\<open>A.ndim\<close>: every SciPy sparse matrix has two axes.\<close>

fun obj_ndim :: "obj \<Rightarrow> nat" where
  "obj_ndim (NDArray dt c) = length (shape c)"
| "obj_ndim (SpMatrix dt c) = 2"

text \<open>The element type of a result with operands of types \<open>d1\<close> and \<open>d2\<close>.\<close>

definition result_type :: "dtype \<Rightarrow> dtype \<Rightarrow> dtype" where
  "result_type d1 d2 = (if d1 = Float64 \<or> d2 = Float64 then Float64 else Int64)"

text \<open>
  Storing into an array converts to its element type: a finite float stored into an
  \<open>int64\<close> array is truncated toward zero. For \<open>nan\<close> and the infinities the C cast
  is undefined; NumPy on x86-64 stores the least \<open>int64\<close>.
\<close>

fun astype :: "dtype \<Rightarrow> num \<Rightarrow> num" where
  "astype Float64 x = x"
| "astype Int64 (Fin r) = Fin (of_int (if 0 \<le> r then \<lfloor>r\<rfloor> else \<lceil>r\<rceil>))"
| "astype Int64 x = Fin (- (2 ^ 63))"

definition np_eye :: "nat \<Rightarrow> dtype \<Rightarrow> obj" where
  "np_eye n dt = NDArray dt (eye_arr n)"

definition sp_eye :: "nat \<Rightarrow> dtype \<Rightarrow> obj" where
  "sp_eye n dt = SpMatrix dt (eye_arr n)"

text \<open>
  \<open>x + y\<close>. Two rank-2 arrays are broadcast against each other: along each axis the
  extents agree or one of them is 1, otherwise NumPy raises \<open>ValueError\<close>. Two sparse
  matrices must have the same shape. Other operands are outside the modelled fragment.
\<close>

definition bdim :: "nat \<Rightarrow> nat \<Rightarrow> nat option" where
  "bdim n p = (if n = p then Some n else if n = 1 then Some p else if p = 1 then Some n else None)"

text \<open>Entry \<open>(i, j)\<close> of an \<open>n \<times> m\<close> array broadcast to a larger shape.\<close>

definition bentry :: "num list \<Rightarrow> nat \<Rightarrow> nat \<Rightarrow> nat \<Rightarrow> nat \<Rightarrow> num" where
  "bentry xs n m i j = xs ! ((if n = 1 then 0 else i) * m + (if m = 1 then 0 else j))"

fun add_arr :: "arr \<Rightarrow> arr \<Rightarrow> error + arr" where
  "add_arr (Arr [n, m] xs) (Arr [p, q] ys) =
     (case (bdim n p, bdim m q) of
        (Some r, Some c) \<Rightarrow>
          Inr (Arr [r, c] (concat (map (\<lambda>i. map (\<lambda>j. bentry xs n m i j + bentry ys p q i j) [0..<c]) [0..<r])))
      | _ \<Rightarrow> Inl ValueError)"
| "add_arr a b = Inl NotModelled"

fun add_obj :: "obj \<Rightarrow> obj \<Rightarrow> error + obj" where
  "add_obj (NDArray d1 a) (NDArray d2 b) =
     ebind (add_arr a b) (\<lambda>c. Inr (NDArray (result_type d1 d2) c))"
| "add_obj (SpMatrix d1 a) (SpMatrix d2 b) =
     (if shape a \<noteq> shape b then Inl ValueError
      else ebind (add_arr a b) (\<lambda>c. Inr (SpMatrix (result_type d1 d2) c)))"
| "add_obj x y = Inl NotModelled"

text \<open>
  \<open>x.dot(y)\<close> for two rank-2 arrays or two sparse matrices: the matrix product;
  \<open>ValueError\<close> when the columns of \<open>x\<close> and the rows of \<open>y\<close> differ in number.
\<close>

fun dot_arr :: "arr \<Rightarrow> arr \<Rightarrow> error + arr" where
  "dot_arr (Arr [n, m] xs) (Arr [p, q] ys) =
     (if m \<noteq> p then Inl ValueError
      else Inr (Arr [n, q] (mat_mul n m q (entry2 xs 0 m False) (entry2 ys 0 q False))))"
| "dot_arr a b = Inl NotModelled"

fun dot_method :: "obj \<Rightarrow> obj \<Rightarrow> error + obj" where
  "dot_method (NDArray d1 a) (NDArray d2 b) =
     ebind (dot_arr a b) (\<lambda>c. Inr (NDArray (result_type d1 d2) c))"
| "dot_method (SpMatrix d1 a) (SpMatrix d2 b) =
     ebind (dot_arr a b) (\<lambda>c. Inr (SpMatrix (result_type d1 d2) c))"
| "dot_method x y = Inl NotModelled"

text \<open>
  \<open>A.sum(1)\<close>, the sums along axis 1: \<open>AxisError\<close> for an array with fewer than two
  axes. For a sparse matrix the result is an \<open>n \<times> 1\<close> matrix, which \<open>np.array\<close> turns
  into an array of that shape.
\<close>

fun sum_axis1 :: "arr \<Rightarrow> error + arr" where
  "sum_axis1 (Arr (s0 # s1 # rest) xs) =
     Inr (Arr (s0 # rest)
       (concat (map (\<lambda>i. map (\<lambda>r. \<Sum>j\<leftarrow>[0..<s1]. xs ! (i * (s1 * prod_list rest) + j * prod_list rest + r))
                            [0..<prod_list rest]) [0..<s0])))"
| "sum_axis1 a = Inl AxisError"

fun sum1 :: "obj \<Rightarrow> error + arr" where
  "sum1 (NDArray dt a) = sum_axis1 a"
| "sum1 (SpMatrix dt a) = ebind (sum_axis1 a) (\<lambda>s. Inr (Arr (shape s @ [1]) (data s)))"

text \<open>
  The power of two floats, following the special cases of C's \<open>pow\<close>:
  \<open>pow(x, 0) = 1\<close>, \<open>pow(0, k) = inf\<close> for negative \<open>k\<close>, and \<open>nan\<close> for a negative base
  with an exponent that is not an integer.
\<close>

definition float_pow :: "num \<Rightarrow> real \<Rightarrow> num" where
  "float_pow x k =
     (if k = 0 then Fin 1
      else case x of
        NaN \<Rightarrow> NaN
      | PInf \<Rightarrow> (if 0 < k then PInf else Fin 0)
      | NInf \<Rightarrow> (if 0 < k then (if k = of_int \<lfloor>k\<rfloor> \<and> odd \<lfloor>k\<rfloor> then NInf else PInf) else Fin 0)
      | Fin r \<Rightarrow>
          (if r = 0 then (if 0 < k then Fin 0 else PInf)
           else if 0 < r then Fin (r powr k)
           else if k = of_int \<lfloor>k\<rfloor> then Fin (r powi \<lfloor>k\<rfloor>)
           else NaN))"

text \<open>
  The exponent handed to \<open>degree_power\<close> is a Python number, an \<open>int\<close> or a
  \<open>float\<close>. \<open>np.power(x, k)\<close> of an integer array and an integer is computed in
  integers, and NumPy refuses a negative exponent there (\<open>ValueError\<close>: integers to
  negative integer powers are not allowed; the check is made as the elements are
  computed). With a float on either side the result is an array of floats.
\<close>

datatype exponent = IntExp int | FloatExp real

fun exp_val :: "exponent \<Rightarrow> real" where
  "exp_val (IntExp z) = of_int z"
| "exp_val (FloatExp r) = r"

fun np_power :: "dtype \<Rightarrow> num list \<Rightarrow> exponent \<Rightarrow> error + dtype \<times> num list" where
  "np_power Int64 xs (IntExp z) =
     (if z < 0 \<and> xs \<noteq> [] then Inl ValueError
      else Inr (Int64, map (\<lambda>x. float_pow x (of_int z)) xs))"
| "np_power dt xs k = Inr (Float64, map (\<lambda>x. float_pow x (exp_val k)) xs)"

text \<open>\<open>np.diag(v)\<close> and \<open>sp.diags(v)\<close> for a vector \<open>v\<close>: the square matrix with \<open>v\<close> on its diagonal.\<close>

definition diag_arr :: "num list \<Rightarrow> arr" where
  "diag_arr v =
     Arr [length v, length v]
       (concat (map (\<lambda>i. map (\<lambda>j. if i = j then v ! i else 0) [0..<length v]) [0..<length v]))"

section \<open>The module's matrix operations\<close>

definition degree_power :: "obj \<Rightarrow> exponent \<Rightarrow> error + obj" where
  "degree_power A k =
     ebind (sum1 A) (\<lambda>s.
     ebind (np_power (dtype_of A) (data s) k) (\<lambda>(dt, degrees).
       let degrees = map (\<lambda>x. if isinf x then 0 else x) degrees
       in if issparse A then Inr (SpMatrix dt (diag_arr degrees))
          else Inr (NDArray dt (diag_arr degrees))))"

definition normalized_adjacency :: "obj \<Rightarrow> bool \<Rightarrow> error + obj" where
  "normalized_adjacency A symmetric =
     (if symmetric then
        ebind (degree_power A (FloatExp (- 0.5))) (\<lambda>normalized_D.
        ebind (dot_method normalized_D A) (\<lambda>DA. dot_method DA normalized_D))
      else
        ebind (degree_power A (FloatExp (- 1.0))) (\<lambda>normalized_D. dot_method normalized_D A))"

section \<open>Objects in memory\<close>

text \<open>
  Arrays and sparse matrices are mutable objects: a variable holds a reference, and
  \<open>fltr[i] = ...\<close> and \<open>fltr.sort_indices()\<close> change the object referred to. The heap
  is the list of the objects allocated so far, a reference is a position in it. The
  arrays that the module only builds and reads (\<open>I\<close>, \<open>A_tilde\<close>, the degrees and the
  products) are passed as values.
\<close>

type_synonym ref = nat
type_synonym heap = "obj list"

definition alloc :: "obj \<Rightarrow> heap \<Rightarrow> ref \<times> heap" where
  "alloc v h = (length h, h @ [v])"

text \<open>\<open>A[i]\<close> for an array: the \<open>i\<close>-th slice along the first axis.\<close>

fun getitem :: "obj \<Rightarrow> nat \<Rightarrow> error + obj" where
  "getitem (NDArray dt (Arr (s0 # rest) xs)) i =
     (if i < s0 then Inr (NDArray dt (Arr rest (take (prod_list rest) (drop (i * prod_list rest) xs))))
      else Inl IndexError)"
| "getitem (NDArray dt (Arr [] xs)) i = Inl IndexError"
| "getitem (SpMatrix dt c) i = Inl NotModelled"

text \<open>
  \<open>fltr[i] = v\<close> for a rank-3 array \<open>fltr\<close> and a rank-2 array \<open>v\<close>: \<open>v\<close> is broadcast
  to the shape of the slice (\<open>ValueError\<close> when it cannot be) and converted to the
  element type of \<open>fltr\<close>.
\<close>

fun setitem :: "obj \<Rightarrow> nat \<Rightarrow> obj \<Rightarrow> error + obj" where
  "setitem (NDArray dt (Arr [s0, n, m] xs)) i (NDArray dv (Arr [p, q] vs)) =
     (if \<not> i < s0 then Inl IndexError
      else if (p = n \<or> p = 1) \<and> (q = m \<or> q = 1) then
        Inr (NDArray dt (Arr [s0, n, m]
          (take (i * (n * m)) xs
           @ concat (map (\<lambda>r. map (\<lambda>c. astype dt (bentry vs p q r c)) [0..<m]) [0..<n])
           @ drop (Suc i * (n * m)) xs)))
      else Inl ValueError)"
| "setitem x i v = Inl NotModelled"

text \<open>
  \<open>sort_indices()\<close> puts the stored column indices of each row in order; the matrix
  that the object denotes is the same.
\<close>

definition sort_indices :: "obj \<Rightarrow> obj" where
  "sort_indices x = x"

text \<open>
  The loop of \<open>localpooling_filter\<close> over the batch: \<open>A\<close> and \<open>fltr\<close> are references;
  an exception leaves the slices written so far in \<open>fltr\<close>.
\<close>

fun fill_slices :: "ref \<Rightarrow> ref \<Rightarrow> obj \<Rightarrow> bool \<Rightarrow> nat list \<Rightarrow> heap \<Rightarrow> (error + unit) \<times> heap" where
  "fill_slices A fltr I symmetric [] h = (Inr (), h)"
| "fill_slices A fltr I symmetric (i # is) h =
     (case ebind (getitem (h ! A) i) (\<lambda>Ai.
           ebind (add_obj Ai I) (\<lambda>A_tilde.
           ebind (normalized_adjacency A_tilde symmetric) (\<lambda>v.
           setitem (h ! fltr) i v))) of
        Inl e \<Rightarrow> (Inl e, h)
      | Inr fl \<Rightarrow> fill_slices A fltr I symmetric is (h[fltr := fl]))"

definition sort_and_return :: "ref \<Rightarrow> heap \<Rightarrow> (error + ref) \<times> heap" where
  "sort_and_return fltr h =
     (if issparse (h ! fltr) then (Inr fltr, h[fltr := sort_indices (h ! fltr)])
      else (Inr fltr, h))"

definition localpooling_filter :: "ref \<Rightarrow> bool \<Rightarrow> heap \<Rightarrow> (error + ref) \<times> heap" where
  "localpooling_filter A symmetric h0 =
     (let (fltr, h) = alloc (h0 ! A) h0 in
      case shape (arr_of (h ! A)) of
        [] \<Rightarrow> (Inl IndexError, h)
      | s # ss \<Rightarrow>
          let I = (if issparse (h ! A) then sp_eye (last (s # ss)) (dtype_of (h ! A))
                   else np_eye (last (s # ss)) (dtype_of (h ! A)))
          in if obj_ndim (h ! A) = 3 then
               (case fill_slices A fltr I symmetric [0..<s] h of
                  (Inl e, h) \<Rightarrow> (Inl e, h)
                | (Inr u, h) \<Rightarrow> sort_and_return fltr h)
             else
               (case ebind (add_obj (h ! A) I) (\<lambda>A_tilde. normalized_adjacency A_tilde symmetric) of
                  Inl e \<Rightarrow> (Inl e, h)
                | Inr v \<Rightarrow> (let (fltr, h) = alloc v h in sort_and_return fltr h)))"


section \<open>Reference definitions\<close>


text \<open>A tensor of the given kind (sparse or dense) with the given entries; used in proofs.\<close>

definition retag :: "bool \<Rightarrow> arr \<Rightarrow> tensor" where
  "retag sp c = (if sp then SparseTensor c else Tensor c)"

section \<open>Lemmas: index arithmetic and the engine operations\<close>

lemma mat_mul_cong:
  assumes "\<And>i j. i < n \<Longrightarrow> j < m \<Longrightarrow> A i j = A' i j"
    and "\<And>j k. j < m \<Longrightarrow> k < p \<Longrightarrow> B j k = B' j k"
  shows "mat_mul n m p A B = mat_mul n m p A' B'"
  unfolding mat_mul_def
  by (intro arg_cong[where f=concat] map_cong refl arg_cong[where f=sum_list]) (simp_all add: assms)

lemma flat2_bound: "i < n \<Longrightarrow> j < (m::nat) \<Longrightarrow> i * m + j < n * m"
proof -
  assume a: "i < n" "j < m"
  then have "i * m + j < i * m + m" by simp
  also have "\<dots> = (Suc i) * m" by simp
  also have "\<dots> \<le> n * m" using a(1) by (intro mult_le_mono1) simp
  finally show ?thesis .
qed

lemma flat3_bound: "i < a \<Longrightarrow> j < b \<Longrightarrow> k < (c::nat) \<Longrightarrow> i * (b * c) + j * c + k < a * b * c"
  using flat2_bound[of i a "j * c + k" "b * c"] flat2_bound[of j b k c]
  by (simp add: mult.assoc add.assoc)

lemma unravel2: "j < m \<Longrightarrow> unravel [n, m] (i * m + j) = [i, j]"
  by simp

lemma unravel3: "j < b \<Longrightarrow> k < c \<Longrightarrow> unravel [a, b, c] (i * (b * c) + j * c + k) = [i, j, k]"
  using flat2_bound[of j b k c]
  by (simp add: add.assoc)

lemma div_flat: "r < d \<Longrightarrow> (t * d + r) div d = (t::nat)"
  by simp

lemma mod_flat: "r < d \<Longrightarrow> (t * d + r) mod d = (r::nat)"
  by simp

lemma transpose_arr_10:
  "transpose_arr (Arr [n, m] xs) [1, 0] =
     Inr (Arr [m, n] (map (\<lambda>k. xs ! (k mod n * m + k div n)) [0..<m * n]))"
  by (simp add: transpose_arr_def offset_def add.commute)

lemma transpose_arr_021:
  "transpose_arr (Arr [c, n, m] xs) [0, 2, 1] =
     Inr (Arr [c, m, n]
       (map (\<lambda>k. xs ! (k div (m * n) * (n * m) + k mod n * m + k mod (m * n) div n)) [0..<c * m * n]))"
  by (simp add: transpose_arr_def offset_def numeral_3_eq_3 mult.assoc add.commute add.left_commute
      mod_mod_cancel)

lemma matmul_arr_rank2_other:
  assumes "\<not> (\<exists>p q. sh = [p, q])"
  shows "matmul_arr (Arr [n, m] xs) (Arr sh ys) ta tb = Inl NotModelled"
  using assms by (cases "(Arr [n, m] xs, Arr sh ys, ta, tb)" rule: matmul_arr.cases) auto

lemma matmul_arr_rank3_other:
  assumes "\<not> (\<exists>c' p q. sh = [c', p, q])"
  shows "matmul_arr (Arr [c, n, m] xs) (Arr sh ys) ta tb = Inl NotModelled"
  using assms by (cases "(Arr [c, n, m] xs, Arr sh ys, ta, tb)" rule: matmul_arr.cases) auto

lemma matmul_arr_transpose_a_2:
  assumes "length (shape a) = 2"
  shows "matmul_arr a b True tb = ebind (transpose_arr a [1, 0]) (\<lambda>a_T. matmul_arr a_T b False tb)"
proof -
  obtain n m xs where a: "a = Arr [n, m] xs"
    using assms by (cases a) (auto simp: length_Suc_conv numeral_2_eq_2)
  obtain sh ys where b: "b = Arr sh ys" by (cases b)
  define xs' where "xs' = map (\<lambda>k. xs ! (k mod n * m + k div n)) [0..<m * n]"
  have e: "entry2 xs 0 m True i j = entry2 xs' 0 n False i j" if "i < m" "j < n" for i j
    using that flat2_bound[of i m j n] by (simp add: entry2_def xs'_def)
  have mm: "mat_mul m n' r (entry2 xs 0 m True) B = mat_mul m n' r (entry2 xs' 0 n' False) B"
    if "n' = n" for n' r B
    unfolding that by (rule mat_mul_cong) (simp_all add: e)
  show ?thesis
  proof (cases "\<exists>p q. sh = [p, q]")
    case True
    then obtain p q where sh: "sh = [p, q]" by blast
    show ?thesis
      unfolding a b sh transpose_arr_10 ebind_def xs'_def[symmetric]
      by (simp add: Let_def mm)
  next
    case False
    show ?thesis
      unfolding a b transpose_arr_10 ebind_def
      by (simp add: matmul_arr_rank2_other[OF False])
  qed
qed

lemma matmul_arr_transpose_a_3:
  assumes "length (shape a) = 3"
  shows "matmul_arr a b True tb = ebind (transpose_arr a [0, 2, 1]) (\<lambda>a_T. matmul_arr a_T b False tb)"
proof -
  obtain c n m xs where a: "a = Arr [c, n, m] xs"
    using assms by (cases a) (auto simp: length_Suc_conv numeral_3_eq_3)
  obtain sh ys where b: "b = Arr sh ys" by (cases b)
  define xs' where
    "xs' = map (\<lambda>k. xs ! (k div (m * n) * (n * m) + k mod n * m + k mod (m * n) div n)) [0..<c * m * n]"
  have e: "entry2 xs (t * (n * m)) m True i j = entry2 xs' (t * (m * n)) n False i j"
    if "t < c" "i < m" "j < n" for t i j
  proof -
    have 1: "t * (m * n) + i * n + j < c * m * n"
      using that by (rule flat3_bound)
    have 2: "i * n + j < m * n" using that by (intro flat2_bound)
    have 3: "(t * (m * n) + i * n + j) div (m * n) = t"
      using div_flat[OF 2, of t] by (simp add: add.assoc)
    have 4: "(t * (m * n) + i * n + j) mod (m * n) = i * n + j"
      using mod_flat[OF 2, of t] by (simp add: add.assoc)
    have 5: "(t * (m * n) + i * n + j) mod n = j"
      using mod_flat[OF that(3), of "t * m + i"] by (simp add: algebra_simps)
    show ?thesis
      using that 1 by (simp add: entry2_def xs'_def 3 4 5)
  qed
  have mm: "mat_mul m n r (entry2 xs (t * (n * m)) m True) B
          = mat_mul m n r (entry2 xs' (t * (m * n)) n False) B" if "t < c" for t r B
    by (rule mat_mul_cong) (simp_all add: e that)
  have bm: "concat (map (\<lambda>t. mat_mul m n' r (entry2 xs (t * (n' * m)) m True) (B t)) [0..<c''])
          = concat (map (\<lambda>t. mat_mul m n' r (entry2 xs' (t * (m * n')) n' False) (B t)) [0..<c''])"
    if "n' = n" "c'' = c" for n' c'' r B
    unfolding that by (intro arg_cong[where f=concat] map_cong refl) (simp add: mm)
  show ?thesis
  proof (cases "\<exists>c' p q. sh = [c', p, q]")
    case True
    then obtain c' p q where sh: "sh = [c', p, q]" by blast
    show ?thesis
      unfolding a b sh transpose_arr_021 ebind_def xs'_def[symmetric]
      by (simp add: Let_def bm)
  next
    case False
    show ?thesis
      unfolding a b transpose_arr_021 ebind_def
      by (simp add: matmul_arr_rank3_other[OF False])
  qed
qed

lemma ebind_Inr: "ebind (Inr x) f = f x"
  by (simp add: ebind_def)

lemma ebind_Inl: "ebind (Inl e) f = Inl e"
  by (simp add: ebind_def)

lemma ebind_assoc: "ebind (ebind m f) g = ebind m (\<lambda>x. ebind (f x) g)"
  by (simp add: ebind_def split: sum.splits)

lemma content_retag: "content (retag sp c) = c"
  by (simp add: retag_def)

lemma is_sparse_retag: "is_sparse (retag sp c) = sp"
  by (simp add: retag_def)

lemma dot_via_arr:
  "dot a b ta tb =
     ebind (matmul_arr (content a) (content b) ta tb) (\<lambda>c. Inr (retag (is_sparse a \<and> is_sparse b) c))"
  by (cases a; cases b) (simp_all add: dot_def Let_def ebind_def retag_def split: sum.splits)

lemma transpose_t_via_arr:
  "transpose_t a perm =
     ebind (transpose_arr (content a) (case perm of None \<Rightarrow> [1, 0] | Some p \<Rightarrow> p))
       (\<lambda>c. Inr (retag (is_sparse a) c))"
  by (cases a)
     (simp_all add: transpose_t_def tf_transpose_def tf_sparse_transpose_def Let_def retag_def)


lemma concat_map_upt:
  "concat (map (\<lambda>i. map (f i) [0..<p]) [0..<n]) = map (\<lambda>q. f (q div p) (q mod p)) [0..<n * p]"
proof (induction n)
  case 0
  then show ?case by simp
next
  case (Suc n)
  have "map (\<lambda>q. f (q div p) (q mod p)) [0..<Suc n * p]
      = map (\<lambda>q. f (q div p) (q mod p)) ([0..<n * p] @ [n * p..<n * p + p])"
    using upt_add_eq_append[of 0 "n * p" p] by (simp add: add.commute)
  also have "\<dots> = map (\<lambda>q. f (q div p) (q mod p)) [0..<n * p]
                 @ map (\<lambda>q. f (q div p) (q mod p)) [n * p..<n * p + p]"
    by simp
  also have "map (\<lambda>q. f (q div p) (q mod p)) [n * p..<n * p + p] = map (f n) [0..<p]"
  proof -
    have "[n * p..<n * p + p] = map (\<lambda>r. r + n * p) [0..<p]"
      using map_add_upt[of "n * p" p] by (simp add: add.commute)
    then show ?thesis by (simp add: o_def)
  qed
  finally show ?case using Suc by simp
qed

lemma mat_mul_flat:
  "mat_mul n m p A B = map (\<lambda>q. \<Sum>j\<leftarrow>[0..<m]. A (q div p) j * B j (q mod p)) [0..<n * p]"
  unfolding mat_mul_def by (rule concat_map_upt)












section \<open>The multiplication mode and the products\<close>

text \<open>
  Claim C6. For every pair of operands, \<open>autodetect_mode\<close> returns a code (it is a
  total function: there is no error outcome), and the code is read off the pair of
  ranks alone: \<open>SINGLE = 1\<close> for ranks \<open>(2, 2)\<close>, \<open>MIXED = 2\<close> for \<open>(2, 3)\<close>,
  \<open>iMIXED = 3\<close> for \<open>(3, 2)\<close>, \<open>BATCH = 4\<close> for \<open>(3, 3)\<close> and \<open>UNKNOWN = -1\<close> for
  every other pair of ranks.
\<close>

theorem autodetect_mode_table:
  "autodetect_mode a b =
     (if ndim a = 2 \<and> ndim b = 2 then 1
      else if ndim a = 2 \<and> ndim b = 3 then 2
      else if ndim a = 3 \<and> ndim b = 2 then 3
      else if ndim a = 3 \<and> ndim b = 3 then 4
      else - 1)"
  by (simp add: autodetect_mode_def Let_def SINGLE_def MIXED_def iMIXED_def BATCH_def UNKNOWN_def)

text \<open>The table at ranks \<open>(1, 2)\<close>, \<open>(4, 3)\<close> and \<open>(2, 3)\<close>.\<close>

theorem autodetect_mode_table_witness:
  "autodetect_mode (Tensor (Arr [2] [Fin 1, Fin 2])) (Tensor (Arr [1, 1] [Fin 3])) = - 1
   \<and> autodetect_mode (Tensor (Arr [1, 1, 1, 1] [Fin 1])) (SparseTensor (Arr [1, 1, 1] [Fin 3])) = - 1
   \<and> autodetect_mode (Tensor (Arr [1, 1] [Fin 1])) (SparseTensor (Arr [1, 1, 1] [Fin 3])) = 2"
  using autodetect_mode_table [of "Tensor (Arr [2] [Fin 1, Fin 2])" "Tensor (Arr [1, 1] [Fin 3])"]
    autodetect_mode_table [of "Tensor (Arr [1, 1, 1, 1] [Fin 1])" "SparseTensor (Arr [1, 1, 1] [Fin 3])"]
    autodetect_mode_table [of "Tensor (Arr [1, 1] [Fin 1])" "SparseTensor (Arr [1, 1, 1] [Fin 3])"]
  by (simp add: ndim_def)

text \<open>
  Claim C5. \<open>filter_dot\<close> computes the mode of its operands; in mode \<open>SINGLE\<close> or
  \<open>BATCH\<close> its result is that of \<open>dot\<close> with both transpose flags false, and in each
  of the modes \<open>MIXED\<close>, \<open>iMIXED\<close> and \<open>UNKNOWN\<close> (there is no further mode) it is that
  of \<open>mixed_mode_dot\<close>. In particular a rank-2 filter applied to rank-2 features gives
  exactly \<open>dot(filter, features)\<close>.
\<close>

theorem filter_dot_dispatch:
  "(autodetect_mode fltr features = SINGLE \<or> autodetect_mode fltr features = BATCH
      \<longrightarrow> filter_dot fltr features = dot fltr features False False)
   \<and> (autodetect_mode fltr features = MIXED \<or> autodetect_mode fltr features = iMIXED
        \<or> autodetect_mode fltr features = UNKNOWN
      \<longrightarrow> filter_dot fltr features = mixed_mode_dot fltr features)
   \<and> (autodetect_mode fltr features \<in> {SINGLE, MIXED, iMIXED, BATCH, UNKNOWN})
   \<and> (ndim fltr = 2 \<and> ndim features = 2
      \<longrightarrow> filter_dot fltr features = dot fltr features False False)"
  by (auto simp: filter_dot_def autodetect_mode_def Let_def
        SINGLE_def MIXED_def iMIXED_def BATCH_def UNKNOWN_def)

text \<open>
  A rank-2 filter on rank-2 features goes through \<open>dot\<close>; the same filter on a batch of
  one feature matrix goes through \<open>mixed_mode_dot\<close>.
\<close>

theorem filter_dot_dispatch_witness:
  "filter_dot (Tensor (Arr [2, 2] [Fin 1, Fin 2, Fin 3, Fin 4])) (Tensor (Arr [2, 1] [Fin 5, Fin 6]))
     = dot (Tensor (Arr [2, 2] [Fin 1, Fin 2, Fin 3, Fin 4])) (Tensor (Arr [2, 1] [Fin 5, Fin 6])) False False
   \<and> filter_dot (Tensor (Arr [2, 2] [Fin 1, Fin 2, Fin 3, Fin 4])) (Tensor (Arr [1, 2, 1] [Fin 5, Fin 6]))
     = mixed_mode_dot (Tensor (Arr [2, 2] [Fin 1, Fin 2, Fin 3, Fin 4])) (Tensor (Arr [1, 2, 1] [Fin 5, Fin 6]))
   \<and> dot (Tensor (Arr [2, 2] [Fin 1, Fin 2, Fin 3, Fin 4])) (Tensor (Arr [2, 1] [Fin 5, Fin 6])) False False
     = Inr (Tensor (Arr [2, 1] [Fin 17, Fin 39]))"
  using filter_dot_dispatch [of "Tensor (Arr [2, 2] [Fin 1, Fin 2, Fin 3, Fin 4])" "Tensor (Arr [2, 1] [Fin 5, Fin 6])"]
    filter_dot_dispatch [of "Tensor (Arr [2, 2] [Fin 1, Fin 2, Fin 3, Fin 4])" "Tensor (Arr [1, 2, 1] [Fin 5, Fin 6])"]
  by (simp add: autodetect_mode_def ndim_def SINGLE_def MIXED_def iMIXED_def BATCH_def UNKNOWN_def
        dot_def Let_def ebind_def mat_mul_def entry2_def upt_rec zero_num_def)

text \<open>
  Claim C10. Whenever \<open>dot\<close> returns, its result is a sparse tensor exactly when both
  operands are sparse tensors: with a dense operand on either side the product is a dense
  tensor, and the product of two sparse tensors comes back as a \<open>SparseTensor\<close>.
\<close>

theorem dot_sparse_iff_both_sparse:
  "dot a b transpose_a transpose_b = Inr out \<Longrightarrow> is_sparse out = (is_sparse a \<and> is_sparse b)"
  by (cases a; cases b)
     (auto simp: dot_def Let_def ebind_def split: sum.splits matmul_operand.splits)

text \<open>A sparse matrix times a dense one is dense; times a sparse one it is sparse.\<close>

theorem dot_sparse_iff_both_sparse_witness:
  "dot (SparseTensor (Arr [1, 1] [Fin 2])) (Tensor (Arr [1, 1] [Fin 3])) False False
     = Inr (Tensor (Arr [1, 1] [Fin 6]))
   \<and> is_sparse (Tensor (Arr [1, 1] [Fin 6]))
     = (is_sparse (SparseTensor (Arr [1, 1] [Fin 2])) \<and> is_sparse (Tensor (Arr [1, 1] [Fin 3])))
   \<and> dot (SparseTensor (Arr [1, 1] [Fin 2])) (SparseTensor (Arr [1, 1] [Fin 3])) False False
     = Inr (SparseTensor (Arr [1, 1] [Fin 6]))
   \<and> is_sparse (SparseTensor (Arr [1, 1] [Fin 6]))
     = (is_sparse (SparseTensor (Arr [1, 1] [Fin 2])) \<and> is_sparse (SparseTensor (Arr [1, 1] [Fin 3])))"
proof -
  have d: "dot (SparseTensor (Arr [1, 1] [Fin 2])) (Tensor (Arr [1, 1] [Fin 3])) False False
     = Inr (Tensor (Arr [1, 1] [Fin 6]))"
    by (simp add: dot_def Let_def ebind_def mat_mul_def entry2_def upt_rec zero_num_def)
  have s: "dot (SparseTensor (Arr [1, 1] [Fin 2])) (SparseTensor (Arr [1, 1] [Fin 3])) False False
     = Inr (SparseTensor (Arr [1, 1] [Fin 6]))"
    by (simp add: dot_def Let_def ebind_def mat_mul_def entry2_def upt_rec zero_num_def)
  show ?thesis
    using d s dot_sparse_iff_both_sparse [OF d] dot_sparse_iff_both_sparse [OF s] by blast
qed

text \<open>
  Claim C9. \<open>dot(a, b, transpose_a=True)\<close> is \<open>dot\<close> with both flags false applied to
  the operand with its two innermost axes transposed: \<open>transpose(a)\<close> for a matrix
  (the default permutation \<open>(1, 0)\<close>) and \<open>transpose(a, (0, 2, 1))\<close> for a batch. This
  holds for dense and sparse operands of any extents, square or not, and includes the
  outcomes that are errors.
\<close>

theorem dot_transpose_a:
  "(ndim a = 2 \<longrightarrow>
      dot a b True False = ebind (transpose_t a None) (\<lambda>a_T. dot a_T b False False))
   \<and> (ndim a = 3 \<longrightarrow>
      dot a b True False = ebind (transpose_t a (Some [0, 2, 1])) (\<lambda>a_T. dot a_T b False False))"
  by (simp add: ndim_def dot_via_arr transpose_t_via_arr ebind_assoc ebind_Inr
      content_retag is_sparse_retag matmul_arr_transpose_a_2 matmul_arr_transpose_a_3)

text \<open>A sparse square matrix against a dense one, and a dense batch against a dense batch.\<close>

theorem dot_transpose_a_witness:
  "dot (SparseTensor (Arr [2, 2] [Fin 1, Fin 2, Fin 3, Fin 4])) (Tensor (Arr [2, 1] [Fin 5, Fin 6])) True False
     = ebind (transpose_t (SparseTensor (Arr [2, 2] [Fin 1, Fin 2, Fin 3, Fin 4])) None)
         (\<lambda>a_T. dot a_T (Tensor (Arr [2, 1] [Fin 5, Fin 6])) False False)
   \<and> dot (SparseTensor (Arr [2, 2] [Fin 1, Fin 2, Fin 3, Fin 4])) (Tensor (Arr [2, 1] [Fin 5, Fin 6])) True False
     = Inr (Tensor (Arr [2, 1] [Fin 23, Fin 34]))
   \<and> dot (Tensor (Arr [1, 2, 2] [Fin 1, Fin 2, Fin 3, Fin 4])) (Tensor (Arr [1, 2, 1] [Fin 5, Fin 6])) True False
     = ebind (transpose_t (Tensor (Arr [1, 2, 2] [Fin 1, Fin 2, Fin 3, Fin 4])) (Some [0, 2, 1]))
         (\<lambda>a_T. dot a_T (Tensor (Arr [1, 2, 1] [Fin 5, Fin 6])) False False)
   \<and> dot (Tensor (Arr [1, 2, 2] [Fin 1, Fin 2, Fin 3, Fin 4])) (Tensor (Arr [1, 2, 1] [Fin 5, Fin 6])) True False
     = Inr (Tensor (Arr [1, 2, 1] [Fin 23, Fin 34]))"
  using dot_transpose_a [of "SparseTensor (Arr [2, 2] [Fin 1, Fin 2, Fin 3, Fin 4])" "Tensor (Arr [2, 1] [Fin 5, Fin 6])"]
    dot_transpose_a [of "Tensor (Arr [1, 2, 2] [Fin 1, Fin 2, Fin 3, Fin 4])" "Tensor (Arr [1, 2, 1] [Fin 5, Fin 6])"]
  by (simp add: ndim_def dot_def Let_def ebind_def mat_mul_def entry2_def upt_rec zero_num_def)




text \<open>
  With an infinite entry in the features, the dense identity does not give the features
  back: \<open>0 * inf\<close> is \<open>nan\<close>.
\<close>

lemma mixed_mode_dot_identity_inf:
  "mixed_mode_dot (Tensor (eye_arr 2)) (Tensor (Arr [1, 2, 1] [PInf, Fin 0]))
     = Inr (Tensor (Arr [1, 2, 1] [PInf, NaN]))"
  by (simp add: mixed_mode_dot_def transpose_t_def tf_transpose_def reshape_def tf_reshape_def
        reshape_arr_def transpose_arr_def dot_def Let_def ebind_def mat_mul_def entry2_def
        offset_def upt_rec zero_num_def one_num_def eye_arr_def)



section \<open>Lemmas: the matrix operations\<close>

lemma fill_slices_frame:
  "length (snd (fill_slices A fltr I symmetric is h)) = length h
   \<and> (\<forall>r. r \<noteq> fltr \<longrightarrow> snd (fill_slices A fltr I symmetric is h) ! r = h ! r)"
proof (induction "is" arbitrary: h)
  case Nil
  then show ?case by simp
next
  case (Cons i "is")
  show ?case
    using Cons.IH by (simp split: sum.splits)
qed

lemma fill_slices_frameD:
  assumes "fill_slices A fltr I symmetric is h = (res, h')"
  shows "length h' = length h" and "r \<noteq> fltr \<Longrightarrow> h' ! r = h ! r"
  using fill_slices_frame[of A fltr I symmetric "is" h] assms by auto

lemma localpooling_filter_unfold:
  assumes "A < length h" and "shape (arr_of (h ! A)) = s # ss"
    and "I = (if issparse (h ! A) then sp_eye (last (s # ss)) (dtype_of (h ! A))
              else np_eye (last (s # ss)) (dtype_of (h ! A)))"
    and "h1 = h @ [h ! A]"
  shows "localpooling_filter A symmetric h =
     (if obj_ndim (h ! A) = 3 then
        (case fill_slices A (length h) I symmetric [0..<s] h1 of
           (Inl e, h') \<Rightarrow> (Inl e, h')
         | (Inr u, h') \<Rightarrow> sort_and_return (length h) h')
      else
        (case ebind (add_obj (h ! A) I) (\<lambda>A_tilde. normalized_adjacency A_tilde symmetric) of
           Inl e \<Rightarrow> (Inl e, h1)
         | Inr v \<Rightarrow> sort_and_return (Suc (length h)) (h1 @ [v])))"
  unfolding assms(3,4)
  using assms(1,2)
  by (simp add: localpooling_filter_def alloc_def Let_def nth_append
        del: last.simps split del: if_split cong: if_cong sum.case_cong)


lemma powr_half_sq: "(2::real) powr - (1 / 2) * 2 powr - (1 / 2) = 1 / 2"
proof -
  have "(2::real) powr - (1 / 2) * 2 powr - (1 / 2) = 2 powr (- (1 / 2) + - (1 / 2))"
    by (simp only: powr_add)
  also have "\<dots> = 2 powr (- 1)" by simp
  also have "\<dots> = 1 / 2" by (simp add: powr_minus_divide)
  finally show ?thesis .
qed

lemmas np_eval = localpooling_filter_def alloc_def sort_and_return_def sort_indices_def
  bdim_def bentry_def normalized_adjacency_def degree_power_def
  float_pow_def diag_arr_def mat_mul_def entry2_def result_type_def np_eye_def sp_eye_def
  eye_arr_def Let_def ebind_def upt_rec zero_num_def one_num_def


lemma sum_axis1_rank2:
  "sum_axis1 (Arr [n, m] xs) = Inr (Arr [n] (map (\<lambda>i. \<Sum>j\<leftarrow>[0..<m]. xs ! (i * m + j)) [0..<n]))"
  by (simp add: concat_map_singleton)












subsection \<open>The batch loop on arrays of floats\<close>

lemma take_concat_blocks:
  assumes "\<forall>b \<in> set bs. length b = P" and "i \<le> length bs"
  shows "take (i * P) (concat bs) = concat (take i bs)"
  using assms
proof (induction bs arbitrary: i)
  case Nil
  then show ?case by simp
next
  case (Cons b bs)
  show ?case
  proof (cases i)
    case 0
    then show ?thesis by simp
  next
    case (Suc k)
    then show ?thesis using Cons by simp
  qed
qed

lemma drop_concat_blocks:
  assumes "\<forall>b \<in> set bs. length b = P" and "i \<le> length bs"
  shows "drop (i * P) (concat bs) = concat (drop i bs)"
  using assms
proof (induction bs arbitrary: i)
  case Nil
  then show ?case by simp
next
  case (Cons b bs)
  show ?case
  proof (cases i)
    case 0
    then show ?thesis by simp
  next
    case (Suc k)
    then show ?thesis using Cons by simp
  qed
qed

lemma slice_concat_blocks:
  assumes "\<forall>b \<in> set bs. length b = P" and "i < length bs"
  shows "take P (drop (i * P) (concat bs)) = bs ! i"
proof -
  have "drop (i * P) (concat bs) = concat (drop i bs)"
    using assms by (intro drop_concat_blocks) auto
  also have "drop i bs = bs ! i # drop (Suc i) bs"
    using assms(2) by (simp add: Cons_nth_drop_Suc)
  finally show ?thesis using assms by simp
qed

lemma update_concat_blocks:
  assumes "\<forall>b \<in> set bs. length b = P" and "i < length bs"
  shows "take (i * P) (concat bs) @ od @ drop (Suc i * P) (concat bs) = concat (bs[i := od])"
proof -
  have 1: "take (i * P) (concat bs) = concat (take i bs)"
    using assms by (intro take_concat_blocks) auto
  have 2: "drop (Suc i * P) (concat bs) = concat (drop (Suc i) bs)"
    using assms by (intro drop_concat_blocks) auto
  show ?thesis
    unfolding 1 2 using assms(2) by (simp add: upd_conv_take_nth_drop)
qed

lemma blocks_of_list:
  assumes "length zs = B * P"
  shows "\<exists>bs. zs = concat bs \<and> length bs = B \<and> (\<forall>b \<in> set bs. length b = P)"
  using assms
proof (induction B arbitrary: zs)
  case 0
  then show ?case by simp
next
  case (Suc B)
  have "length (drop P zs) = B * P" using Suc.prems by simp
  then obtain bs where bs: "drop P zs = concat bs" "length bs = B" "\<forall>b \<in> set bs. length b = P"
    using Suc.IH by blast
  have "concat (take P zs # bs) = take P zs @ drop P zs" by (simp add: bs(1))
  then have "zs = concat (take P zs # bs)" by simp
  moreover have "length (take P zs) = P" using Suc.prems by simp
  ultimately show ?case using bs by (intro exI[of _ "take P zs # bs"]) auto
qed

lemma length_mat_mul: "length (mat_mul n m p A B) = n * p"
  by (simp add: mat_mul_flat)

lemma degree_power_dense_float:
  "\<exists>v. degree_power (NDArray dt (Arr [n, m] xs)) (FloatExp k) = Inr (NDArray Float64 (diag_arr v))
       \<and> length v = n"
proof -
  define v where "v = map (\<lambda>x. if isinf x then 0 else x)
      (map (\<lambda>x. float_pow x k) (map (\<lambda>i. \<Sum>j\<leftarrow>[0..<m]. xs ! (i * m + j)) [0..<n]))"
  have "degree_power (NDArray dt (Arr [n, m] xs)) (FloatExp k) = Inr (NDArray Float64 (diag_arr v))"
    by (cases dt) (simp_all add: degree_power_def sum_axis1_rank2 ebind_def Let_def v_def o_assoc)
  moreover have "length v = n" by (simp add: v_def)
  ultimately show ?thesis by blast
qed

lemma dot_method_dense:
  "dot_method (NDArray d1 (Arr [n, m] xs)) (NDArray d2 (Arr [m, q] ys))
     = Inr (NDArray (result_type d1 d2)
         (Arr [n, q] (mat_mul n m q (entry2 xs 0 m False) (entry2 ys 0 q False))))"
  by (simp add: ebind_def)

lemma normalized_adjacency_dense:
  "\<exists>od. normalized_adjacency (NDArray dt (Arr [n, n] xs)) symmetric = Inr (NDArray Float64 (Arr [n, n] od))
        \<and> length od = n * n"
proof -
  have dp: "\<exists>vd. degree_power (NDArray dt (Arr [n, n] xs)) (FloatExp k) = Inr (NDArray Float64 (Arr [n, n] vd))"
    for k
    using degree_power_dense_float[of dt n n xs k] by (auto simp: diag_arr_def)
  show ?thesis
  proof (cases symmetric)
    case True
    obtain vd where "degree_power (NDArray dt (Arr [n, n] xs)) (FloatExp (- 0.5)) = Inr (NDArray Float64 (Arr [n, n] vd))"
      using dp by blast
    then show ?thesis
      using True by (simp add: normalized_adjacency_def ebind_def result_type_def length_mat_mul)
  next
    case False
    obtain vd where "degree_power (NDArray dt (Arr [n, n] xs)) (FloatExp (- 1.0)) = Inr (NDArray Float64 (Arr [n, n] vd))"
      using dp by blast
    then show ?thesis
      using False by (simp add: normalized_adjacency_def ebind_def result_type_def length_mat_mul)
  qed
qed

lemma add_obj_dense_eye:
  "\<exists>zs. add_obj (NDArray dt (Arr [n, n] xs)) (np_eye n dt) = Inr (NDArray dt (Arr [n, n] zs))"
  by (cases dt) (simp_all add: np_eye_def eye_arr_def bdim_def ebind_def result_type_def)

lemma concat_bentry_same:
  assumes "length od = N * N"
  shows "concat (map (\<lambda>r. map (\<lambda>c. bentry od N N r c) [0..<N]) [0..<N]) = od"
proof -
  have "concat (map (\<lambda>r. map (\<lambda>c. bentry od N N r c) [0..<N]) [0..<N])
      = map (\<lambda>q. bentry od N N (q div N) (q mod N)) [0..<N * N]"
    by (rule concat_map_upt)
  also have "\<dots> = map (\<lambda>q. od ! q) [0..<N * N]"
  proof (intro map_cong refl)
    fix q assume "q \<in> set [0..<N * N]"
    then have q: "q < N * N" by simp
    show "bentry od N N (q div N) (q mod N) = od ! q"
    proof (cases "N = 1")
      case True
      then show ?thesis using q by (simp add: bentry_def)
    next
      case False
      then show ?thesis by (simp add: bentry_def)
    qed
  qed
  also have "\<dots> = od"
    using map_nth[of od] by (simp add: assms)
  finally show ?thesis .
qed

lemma setitem_float_slice:
  assumes "i < B" and "length od = N * N"
  shows "setitem (NDArray Float64 (Arr [B, N, N] zs)) i (NDArray dv (Arr [N, N] od))
       = Inr (NDArray Float64 (Arr [B, N, N] (take (i * (N * N)) zs @ od @ drop (Suc i * (N * N)) zs)))"
  using assms by (simp add: concat_bentry_same cong: map_cong)

lemma getitem_block:
  assumes "\<forall>b \<in> set bs. length b = N * N" and "i < length bs" and "length bs = B"
  shows "getitem (NDArray dt (Arr [B, N, N] (concat bs))) i = Inr (NDArray dt (Arr [N, N] (bs ! i)))"
  using assms slice_concat_blocks[OF assms(1,2)] by simp

lemma fill_slices_float64:
  assumes A: "h ! A = NDArray Float64 (Arr [B, N, N] (concat bsx))"
    and bsx: "length bsx = B" "\<forall>b \<in> set bsx. length b = N * N"
    and f: "f < length h" "f \<noteq> A"
    and hf: "h ! f = NDArray Float64 (Arr [B, N, N] (concat bs))"
    and bs: "length bs = B" "\<forall>b \<in> set bs. length b = N * N"
    and od: "\<And>i. i < B \<Longrightarrow>
               ebind (add_obj (NDArray Float64 (Arr [N, N] (bsx ! i))) I)
                 (\<lambda>A_tilde. normalized_adjacency A_tilde symmetric)
               = Inr (NDArray Float64 (Arr [N, N] (od i))) \<and> length (od i) = N * N"
  shows "fill_slices A f I symmetric [k..<B] h
       = (Inr (), h[f := NDArray Float64 (Arr [B, N, N] (concat (take k bs @ map od [k..<B])))])"
  using A f hf bs
proof (induction "B - k" arbitrary: k h bs)
  case 0
  then have "[k..<B] = []" and "take k bs = bs" by simp_all
  then show ?case
    using "0.prems" by (simp add: list_update_same_conv[THEN iffD2])
next
  case (Suc n)
  then have k: "k < B" by simp
  have upt: "[k..<B] = k # [Suc k..<B]" using k by (simp add: upt_conv_Cons)
  have g: "getitem (h ! A) k = Inr (NDArray Float64 (Arr [N, N] (bsx ! k)))"
    unfolding Suc.prems(1) using getitem_block[OF bsx(2) _ bsx(1)] k bsx(1) by simp
  have s: "setitem (h ! f) k (NDArray Float64 (Arr [N, N] (od k)))
         = Inr (NDArray Float64 (Arr [B, N, N] (concat (bs[k := od k]))))"
    unfolding Suc.prems(4)
    using setitem_float_slice[OF k, of "od k" N "concat bs" Float64] od[OF k]
      update_concat_blocks[OF Suc.prems(6), of k "od k"] k Suc.prems(5)
    by simp
  define h' where "h' = h[f := NDArray Float64 (Arr [B, N, N] (concat (bs[k := od k])))]"
  obtain A_tilde where At: "add_obj (NDArray Float64 (Arr [N, N] (bsx ! k))) I = Inr A_tilde"
      "normalized_adjacency A_tilde symmetric = Inr (NDArray Float64 (Arr [N, N] (od k)))"
    using od[OF k] by (auto simp: ebind_def split: sum.splits)
  have step: "fill_slices A f I symmetric [k..<B] h = fill_slices A f I symmetric [Suc k..<B] h'"
    unfolding upt h'_def by (simp add: g At s ebind_def)
  have bs': "length (bs[k := od k]) = B" "\<forall>b \<in> set (bs[k := od k]). length b = N * N"
    using Suc.prems(5,6) od[OF k] by (auto dest!: set_update_subset_insert[THEN subsetD])
  have rec: "fill_slices A f I symmetric [Suc k..<B] h'
      = (Inr (), h'[f := NDArray Float64 (Arr [B, N, N]
                    (concat (take (Suc k) (bs[k := od k]) @ map od [Suc k..<B])))])"
  proof (rule Suc.hyps(1))
    show "n = B - Suc k" using Suc.hyps(2) by simp
    show "h' ! A = NDArray Float64 (Arr [B, N, N] (concat bsx))"
      using Suc.prems(1,3) by (simp add: h'_def)
    show "f < length h'" using Suc.prems(2) by (simp add: h'_def)
    show "f \<noteq> A" by (rule Suc.prems(3))
    show "h' ! f = NDArray Float64 (Arr [B, N, N] (concat (bs[k := od k])))"
      using Suc.prems(2) by (simp add: h'_def)
    show "length (bs[k := od k]) = B" by (rule bs'(1))
    show "\<forall>b \<in> set (bs[k := od k]). length b = N * N" by (rule bs'(2))
  qed
  have t: "take (Suc k) (bs[k := od k]) @ map od [Suc k..<B] = take k bs @ map od [k..<B]"
    using k Suc.prems(5) by (simp add: take_Suc_conv_app_nth upt)
  have o: "h'[f := X] = h[f := X]" for X
    by (simp add: h'_def)
  show ?case
    unfolding step rec t o ..
qed

section \<open>Degrees, normalisation and the graph filter\<close>




text \<open>
  Claim C3. \<open>normalized_adjacency(A, symmetric=True)\<close> is the product
  \<open>degree_power(A, -0.5) \<cdot> A \<cdot> degree_power(A, -0.5)\<close>, and with \<open>symmetric=False\<close> it is
  \<open>degree_power(A, -1.0) \<cdot> A\<close> (an exception of a step is the exception of the call).
  For \<open>A = [[0, 1], [1, 0]]\<close> the symmetric form has the entries of \<open>A\<close>, as floats.
\<close>

theorem normalized_adjacency_products:
  "normalized_adjacency A True
     = ebind (degree_power A (FloatExp (- 0.5))) (\<lambda>D. ebind (dot_method D A) (\<lambda>DA. dot_method DA D))
   \<and> normalized_adjacency A False
     = ebind (degree_power A (FloatExp (- 1.0))) (\<lambda>D. dot_method D A)
   \<and> normalized_adjacency (NDArray dt (Arr [2, 2] [Fin 0, Fin 1, Fin 1, Fin 0])) True
     = Inr (NDArray Float64 (Arr [2, 2] [Fin 0, Fin 1, Fin 1, Fin 0]))"
proof -
  have "normalized_adjacency (NDArray dt (Arr [2, 2] [Fin 0, Fin 1, Fin 1, Fin 0])) True
     = Inr (NDArray Float64 (Arr [2, 2] [Fin 0, Fin 1, Fin 1, Fin 0]))"
    by (simp add: np_eval)
  then show ?thesis by (simp add: normalized_adjacency_def)
qed

text \<open>The random-walk form of the sparse matrix \<open>[[0, 2], [2, 0]]\<close>.\<close>

theorem normalized_adjacency_products_witness:
  "normalized_adjacency (SpMatrix Float64 (Arr [2, 2] [Fin 0, Fin 2, Fin 2, Fin 0])) False
     = ebind (degree_power (SpMatrix Float64 (Arr [2, 2] [Fin 0, Fin 2, Fin 2, Fin 0])) (FloatExp (- 1.0)))
         (\<lambda>D. dot_method D (SpMatrix Float64 (Arr [2, 2] [Fin 0, Fin 2, Fin 2, Fin 0])))
   \<and> normalized_adjacency (SpMatrix Float64 (Arr [2, 2] [Fin 0, Fin 2, Fin 2, Fin 0])) False
     = Inr (SpMatrix Float64 (Arr [2, 2] [Fin 0, Fin 1, Fin 1, Fin 0]))"
  using normalized_adjacency_products [of "SpMatrix Float64 (Arr [2, 2] [Fin 0, Fin 2, Fin 2, Fin 0])"]
  by (simp add: np_eval powr_neg_one)




text \<open>
  Claim C7 fails for a batch of integers. \<open>fltr = A.copy()\<close> has the element type of
  \<open>A\<close>, so each \<open>fltr[i] = ...\<close> truncates the normalised slice to integers: for the
  \<open>int64\<close> batch \<open>[[[0, 1], [1, 0]]]\<close> the batched call returns \<open>[[[0, 0], [0, 0]]]\<close>,
  while the call on the slice \<open>[[0, 1], [1, 0]]\<close> returns
  \<open>[[0.5, 0.5], [0.5, 0.5]]\<close>.
\<close>

theorem localpooling_filter_batch_int64:
  "localpooling_filter 0 True [NDArray Int64 (Arr [1, 2, 2] [Fin 0, Fin 1, Fin 1, Fin 0])]
     = (Inr 1, [NDArray Int64 (Arr [1, 2, 2] [Fin 0, Fin 1, Fin 1, Fin 0]),
                NDArray Int64 (Arr [1, 2, 2] [Fin 0, Fin 0, Fin 0, Fin 0])])
   \<and> getitem (NDArray Int64 (Arr [1, 2, 2] [Fin 0, Fin 1, Fin 1, Fin 0])) 0
     = Inr (NDArray Int64 (Arr [2, 2] [Fin 0, Fin 1, Fin 1, Fin 0]))
   \<and> getitem (NDArray Int64 (Arr [1, 2, 2] [Fin 0, Fin 0, Fin 0, Fin 0])) 0
     = Inr (NDArray Int64 (Arr [2, 2] [Fin 0, Fin 0, Fin 0, Fin 0]))
   \<and> localpooling_filter 0 True [NDArray Int64 (Arr [2, 2] [Fin 0, Fin 1, Fin 1, Fin 0])]
     = (Inr 2, [NDArray Int64 (Arr [2, 2] [Fin 0, Fin 1, Fin 1, Fin 0]),
                NDArray Int64 (Arr [2, 2] [Fin 0, Fin 1, Fin 1, Fin 0]),
                NDArray Float64 (Arr [2, 2] [Fin (1 / 2), Fin (1 / 2), Fin (1 / 2), Fin (1 / 2)])])"
  by (simp add: np_eval powr_half_sq)

text \<open>
  The defect is the element type of the copy: for every batch of floats the batched
  call returns a new array whose slice \<open>i\<close> is what the call on the slice \<open>A[i]\<close>
  returns.
\<close>

lemma localpooling_filter_batch_float64:
  assumes "A < length h" and "h ! A = NDArray Float64 (Arr [B, N, N] xs)"
    and "length xs = B * (N * N)"
  shows "\<exists>ys. localpooling_filter A symmetric h
                = (Inr (length h), h @ [NDArray Float64 (Arr [B, N, N] ys)])
            \<and> (\<forall>i<B. \<exists>Ai out. getitem (h ! A) i = Inr Ai
                   \<and> localpooling_filter 0 symmetric [Ai] = (Inr 2, [Ai, Ai, out])
                   \<and> getitem (NDArray Float64 (Arr [B, N, N] ys)) i = Inr out)"
proof -
  obtain bsx where bsx: "xs = concat bsx" "length bsx = B" "\<forall>b \<in> set bsx. length b = N * N"
    using blocks_of_list[OF assms(3)] by blast
  define I where "I = np_eye N Float64"
  define res where "res = (\<lambda>i. ebind (add_obj (NDArray Float64 (Arr [N, N] (bsx ! i))) I)
                 (\<lambda>A_tilde. normalized_adjacency A_tilde symmetric))"
  have ex: "\<exists>od. res i = Inr (NDArray Float64 (Arr [N, N] od)) \<and> length od = N * N" for i
  proof -
    obtain zs where "add_obj (NDArray Float64 (Arr [N, N] (bsx ! i))) I = Inr (NDArray Float64 (Arr [N, N] zs))"
      unfolding I_def using add_obj_dense_eye by blast
    then show ?thesis
      using normalized_adjacency_dense[of Float64 N zs symmetric] by (simp add: res_def ebind_def)
  qed
  define od where "od = (\<lambda>i. data (arr_of (projr (res i))))"
  have od: "res i = Inr (NDArray Float64 (Arr [N, N] (od i))) \<and> length (od i) = N * N" for i
    using ex[of i] by (auto simp: od_def)
  define ys where "ys = concat (map od [0..<B])"
  define h1 where "h1 = h @ [h ! A]"
  have A1: "h1 ! A = NDArray Float64 (Arr [B, N, N] (concat bsx))"
    using assms(1,2) by (simp add: h1_def nth_append bsx(1))
  have f1: "h1 ! length h = NDArray Float64 (Arr [B, N, N] (concat bsx))"
    using assms(2) by (simp add: h1_def bsx(1))
  have fill: "fill_slices A (length h) I symmetric [0..<B] h1
       = (Inr (), h1[length h := NDArray Float64 (Arr [B, N, N] (concat (take 0 bsx @ map od [0..<B])))])"
  proof (rule fill_slices_float64[OF A1 bsx(2,3) _ _ f1 bsx(2,3)])
    show "length h < length h1" by (simp add: h1_def)
    show "length h \<noteq> A" using assms(1) by simp
    show "ebind (add_obj (NDArray Float64 (Arr [N, N] (bsx ! i))) I)
                 (\<lambda>A_tilde. normalized_adjacency A_tilde symmetric)
               = Inr (NDArray Float64 (Arr [N, N] (od i))) \<and> length (od i) = N * N" for i
      using od[of i] by (simp add: res_def)
  qed
  have I': "I = (if issparse (h ! A) then sp_eye (last [B, N, N]) (dtype_of (h ! A))
              else np_eye (last [B, N, N]) (dtype_of (h ! A)))"
    by (simp add: I_def assms(2))
  have sh: "shape (arr_of (h ! A)) = [B, N, N]" by (simp add: assms(2))
  have u: "h1[length h := X] = h @ [X]" for X
    by (simp add: h1_def)
  have nd: "obj_ndim (h ! A) = 3" by (simp add: assms(2))
  have lp: "localpooling_filter A symmetric h
          = (Inr (length h), h @ [NDArray Float64 (Arr [B, N, N] ys)])"
    unfolding localpooling_filter_unfold[OF assms(1) sh I' h1_def]
    by (simp add: nd fill u sort_and_return_def ys_def)
  have blocks: "\<forall>b \<in> set (map od [0..<B]). length b = N * N"
    using od by auto
  have slice: "\<exists>Ai out. getitem (h ! A) i = Inr Ai
                   \<and> localpooling_filter 0 symmetric [Ai] = (Inr 2, [Ai, Ai, out])
                   \<and> getitem (NDArray Float64 (Arr [B, N, N] ys)) i = Inr out" if i: "i < B" for i
  proof -
    define Ai where "Ai = NDArray Float64 (Arr [N, N] (bsx ! i))"
    define out where "out = NDArray Float64 (Arr [N, N] (od i))"
    have g: "getitem (h ! A) i = Inr Ai"
      unfolding assms(2) bsx(1) Ai_def using getitem_block[OF bsx(3) _ bsx(2)] i bsx(2) by simp
    have g': "getitem (NDArray Float64 (Arr [B, N, N] ys)) i = Inr out"
      unfolding ys_def out_def using getitem_block[OF blocks, of i B Float64] i by simp
    have Ii: "I = (if issparse ([Ai] ! 0) then sp_eye (last [N, N]) (dtype_of ([Ai] ! 0))
              else np_eye (last [N, N]) (dtype_of ([Ai] ! 0)))"
      by (simp add: I_def Ai_def)
    have p1: "0 < length [Ai]" by simp
    have p2: "shape (arr_of ([Ai] ! 0)) = [N, N]" by (simp add: Ai_def)
    have r: "ebind (add_obj Ai I) (\<lambda>A_tilde. normalized_adjacency A_tilde symmetric) = Inr out"
      using od[of i] by (simp add: Ai_def out_def res_def)
    have "localpooling_filter 0 symmetric [Ai] = (Inr 2, [Ai, Ai, out])"
      unfolding localpooling_filter_unfold[OF p1 p2 Ii refl]
      by (simp add: r sort_and_return_def) (simp add: Ai_def out_def)
    then show ?thesis using g g' by blast
  qed
  show ?thesis using lp slice by blast
qed

text \<open>
  Claim C8. Whatever its outcome, a call of \<open>localpooling_filter\<close> leaves every object
  that existed before the call as it was, the argument \<open>A\<close> among them; the reference
  it returns is to an object allocated during the call.
\<close>

theorem localpooling_filter_frame:
  assumes "A < length h"
  shows "(\<forall>r < length h. snd (localpooling_filter A symmetric h) ! r = h ! r)
     \<and> (\<forall>fltr. fst (localpooling_filter A symmetric h) = Inr fltr \<longrightarrow> length h \<le> fltr)"
proof -
  define h1 where "h1 = h @ [h ! A]"
  have h1: "h1 ! r = h ! r" if "r < length h" for r
    using that by (simp add: h1_def nth_append)
  have l1: "length h1 = Suc (length h)" by (simp add: h1_def)
  show ?thesis
  proof (cases "shape (arr_of (h ! A))")
    case Nil
    then show ?thesis
      using assms by (simp add: localpooling_filter_def alloc_def h1_def[symmetric] h1)
  next
    case (Cons s ss)
    define I where "I = (if issparse (h ! A) then sp_eye (last (s # ss)) (dtype_of (h ! A))
                   else np_eye (last (s # ss)) (dtype_of (h ! A)))"
    note lp = localpooling_filter_unfold[OF assms Cons I_def h1_def, of symmetric]
    show ?thesis
    proof (cases "obj_ndim (h ! A) = 3")
      case True
      obtain res h2 where f: "fill_slices A (length h) I symmetric [0..<s] h1 = (res, h2)"
        by (cases "fill_slices A (length h) I symmetric [0..<s] h1")
      have h2: "h2 ! r = h ! r" if "r < length h" for r
        using fill_slices_frameD(2)[OF f, of r] h1[OF that] that by simp
      have l2: "length h2 = Suc (length h)"
        using fill_slices_frameD(1)[OF f] l1 by simp
      show ?thesis
        unfolding lp using True f h2 l2
        by (auto simp: sort_and_return_def split: sum.splits)
    next
      case False
      show ?thesis
        unfolding lp using False h1 l1
        by (auto simp: sort_and_return_def nth_append split: sum.splits)
    qed
  qed
qed

text \<open>An \<open>int64\<close> batch, whose copy is written to slice by slice.\<close>

theorem localpooling_filter_frame_witness:
  "(0::nat) < length [NDArray Int64 (Arr [1, 2, 2] [Fin 0, Fin 1, Fin 1, Fin 0])]
   \<and> snd (localpooling_filter 0 True [NDArray Int64 (Arr [1, 2, 2] [Fin 0, Fin 1, Fin 1, Fin 0])]) ! 0
       = NDArray Int64 (Arr [1, 2, 2] [Fin 0, Fin 1, Fin 1, Fin 0])
   \<and> fst (localpooling_filter 0 True [NDArray Int64 (Arr [1, 2, 2] [Fin 0, Fin 1, Fin 1, Fin 0])])
       = Inr 1"
  using localpooling_filter_frame [of 0 "[NDArray Int64 (Arr [1, 2, 2] [Fin 0, Fin 1, Fin 1, Fin 0])]" True]
  by (simp add: np_eval powr_half_sq)

end
